theory Spec2Isabelle
  imports Main
begin

section \<open>Python values, errors and strings\<close>

text \<open>
  The values that are stored as positional arguments of a raised exception, or returned
  by an entry point: the immutable builtins \<open>None\<close>, \<open>bool\<close>, \<open>int\<close> (unbounded)
  and \<open>str\<close>, and the contents of a \<open>list\<close> of strings as they are when the list
  is read. A string is a list of characters; a character stands for the code point of
  the same number (below 256).
\<close>

datatype pyval = PNone | PBool bool | PInt int | PStr string | PList "string list"

text \<open>
  The exceptions the interpreter itself raises in the modelled code. \<open>Unsupported\<close>
  is not a Python exception: the model of a library function returns it for an input
  outside the fragment it covers.
\<close>

datatype pyerr =
    TypeError | NameError | AttributeError | IndexError | KeyError | ValueError
  | RecursionError | Unsupported

definition nl :: char where
  "nl = CHR 0x0A"

text \<open>\<open>str.isspace\<close> for one character (code points below 256).\<close>

definition py_isspace :: "char \<Rightarrow> bool" where
  "py_isspace c = ((of_char c :: nat) \<in> set [9, 10, 11, 12, 13, 28, 29, 30, 31, 32, 133, 160])"

text \<open>\<open>s.strip()\<close>: leading and trailing whitespace removed.\<close>

definition strip_py :: "string \<Rightarrow> string" where
  "strip_py s = rev (dropWhile py_isspace (rev (dropWhile py_isspace s)))"

text \<open>\<open>sub in s\<close> for strings.\<close>

fun contains :: "string \<Rightarrow> string \<Rightarrow> bool" where
  "contains sub [] = (sub = [])"
| "contains sub (c # cs) = (take (length sub) (c # cs) = sub \<or> contains sub cs)"

text \<open>
  \<open>s.split('\n\n')\<close>: the pieces between the non-overlapping occurrences of a blank
  line separator, found from the left; \<open>cur\<close> holds the current piece, reversed.
\<close>

fun split_blank :: "string \<Rightarrow> string \<Rightarrow> string list" where
  "split_blank cur [] = [rev cur]"
| "split_blank cur [c] = [rev (c # cur)]"
| "split_blank cur (c # d # cs) =
     (if c = nl \<and> d = nl then rev cur # split_blank [] cs
      else split_blank (c # cur) (d # cs))"

text \<open>\<open>sep.join(xs)\<close>.\<close>

fun join :: "string \<Rightarrow> string list \<Rightarrow> string" where
  "join sep [] = []"
| "join sep [x] = x"
| "join sep (x # y # ys) = x @ sep @ join sep (y # ys)"

section \<open>Classes: declaration, method resolution order, attribute lookup\<close>

text \<open>
  A class is identified by its position in the table of declared classes. It records
  its name, its declared bases (in order), its method resolution order and the
  attributes its own body sets; \<open>None\<close> for an attribute the body does not set.
\<close>

record pyclass =
  c_name :: string
  c_bases :: "nat list"
  c_mro :: "nat list"
  c_exit_status :: "int option"
  c_message :: "string option"
  c_prefix_name :: "bool option"
  c_prefix_error :: "bool option"

type_synonym classes = "pyclass list"

text \<open>A class statement: name, bases, and the attributes assigned in the body.\<close>

record class_decl =
  d_name :: string
  d_bases :: "nat list"
  d_exit_status :: "int option"
  d_message :: "string option"
  d_prefix_name :: "bool option"
  d_prefix_error :: "bool option"

text \<open>
  The C3 merge of CPython (\<open>pmerge\<close>): the next class is the head of the first list
  whose head is in the tail of no list; it is removed from every list it heads. No such
  head while a list is non-empty is the \<open>TypeError\<close> of an inconsistent hierarchy.
\<close>

fun in_tail :: "nat \<Rightarrow> nat list \<Rightarrow> bool" where
  "in_tail x [] = False"
| "in_tail x (y # ys) = (x \<in> set ys)"

fun find_candidate :: "nat list list \<Rightarrow> nat list list \<Rightarrow> nat option" where
  "find_candidate ls [] = None"
| "find_candidate ls ([] # rest) = find_candidate ls rest"
| "find_candidate ls ((x # xs) # rest) =
     (if list_ex (in_tail x) ls then find_candidate ls rest else Some x)"

fun remove_head :: "nat \<Rightarrow> nat list \<Rightarrow> nat list" where
  "remove_head x [] = []"
| "remove_head x (y # ys) = (if y = x then ys else y # ys)"

lemma remove_head_length: "length (remove_head x l) \<le> length l"
  by (cases l) auto

fun total_length :: "nat list list \<Rightarrow> nat" where
  "total_length [] = 0"
| "total_length (l # ls) = length l + total_length ls"

lemma remove_head_total: "total_length (map (remove_head x) ls) \<le> total_length ls"
proof (induction ls)
  case Nil
  then show ?case by simp
next
  case (Cons l ls)
  have "length (remove_head x l) \<le> length l" by (rule remove_head_length)
  with Cons show ?case by simp
qed

lemma find_candidate_decreases:
  "find_candidate ls rest = Some x \<Longrightarrow>
   total_length (map (remove_head x) rest) < total_length rest"
proof (induction ls rest rule: find_candidate.induct)
  case (1 ls)
  then show ?case by simp
next
  case (2 ls rest)
  then show ?case by simp
next
  case (3 ls y ys rest)
  show ?case
  proof (cases "list_ex (in_tail y) ls")
    case True
    with 3 have "total_length (map (remove_head x) rest) < total_length rest"
      by simp
    moreover have "length (remove_head x (y # ys)) \<le> length (y # ys)"
      by (rule remove_head_length)
    ultimately show ?thesis by simp
  next
    case False
    with 3 have "x = y" by simp
    moreover have "total_length (map (remove_head x) rest) \<le> total_length rest"
      by (rule remove_head_total)
    ultimately show ?thesis by simp
  qed
qed

function pmerge :: "nat list list \<Rightarrow> nat list option" where
  "pmerge ls =
     (if list_all (\<lambda>l. l = []) ls then Some []
      else case find_candidate ls ls of
             None \<Rightarrow> None
           | Some x \<Rightarrow> map_option ((#) x) (pmerge (map (remove_head x) ls)))"
  by pat_completeness auto
termination
  by (relation "measure total_length") (auto dest: find_candidate_decreases)

declare pmerge.simps [simp del]

text \<open>
  The method resolution order of a new class \<open>c\<close> with the given bases: with a single
  base, the class followed by the base's order (CPython's fast path); otherwise the class
  followed by the merge of the bases' orders and the list of bases.
\<close>

definition compute_mro :: "classes \<Rightarrow> nat \<Rightarrow> nat list \<Rightarrow> nat list option" where
  "compute_mro tbl c bases =
     (case bases of
        [b] \<Rightarrow> Some (c # c_mro (tbl ! b))
      | _ \<Rightarrow> map_option ((#) c) (pmerge (map (\<lambda>b. c_mro (tbl ! b)) bases @ [bases])))"

text \<open>
  The class statement. A base that names no declared class is a \<open>NameError\<close>, a
  repeated base or an inconsistent hierarchy a \<open>TypeError\<close>. Otherwise the new class is
  appended to the table, with the attributes of its body as they are written: the
  module defines no metaclass and no hook, so nothing else is computed or stored.
\<close>

definition new_class :: "class_decl \<Rightarrow> nat list \<Rightarrow> pyclass" where
  "new_class d m =
     \<lparr>c_name = d_name d, c_bases = d_bases d, c_mro = m,
      c_exit_status = d_exit_status d, c_message = d_message d,
      c_prefix_name = d_prefix_name d, c_prefix_error = d_prefix_error d\<rparr>"

definition class_stmt :: "classes \<Rightarrow> class_decl \<Rightarrow> pyerr + (nat \<times> classes)" where
  "class_stmt tbl d =
     (if list_ex (\<lambda>b. length tbl \<le> b) (d_bases d) then Inl NameError
      else if \<not> distinct (d_bases d) then Inl TypeError
      else case compute_mro tbl (length tbl) (d_bases d) of
             None \<Rightarrow> Inl TypeError
           | Some m \<Rightarrow> Inr (length tbl, tbl @ [new_class d m]))"

text \<open>
  A sequence of class statements, as the body of a module runs them: the first one that
  raises ends the run, and the classes declared before it stay declared.
\<close>

fun exec_decls :: "classes \<Rightarrow> class_decl list \<Rightarrow> classes \<times> pyerr option" where
  "exec_decls tbl [] = (tbl, None)"
| "exec_decls tbl (d # ds) =
     (case class_stmt tbl d of
        Inl e \<Rightarrow> (tbl, Some e)
      | Inr (c, tbl') \<Rightarrow> exec_decls tbl' ds)"

text \<open>
  Attribute lookup on a class: the first class of its method resolution order whose own
  body sets the attribute; \<open>None\<close> is Python's \<open>AttributeError\<close>.
\<close>

fun first_some :: "('a \<Rightarrow> 'b option) \<Rightarrow> 'a list \<Rightarrow> 'b option" where
  "first_some f [] = None"
| "first_some f (x # xs) = (case f x of Some v \<Rightarrow> Some v | None \<Rightarrow> first_some f xs)"

definition class_attr :: "classes \<Rightarrow> (pyclass \<Rightarrow> 'a option) \<Rightarrow> nat \<Rightarrow> 'a option" where
  "class_attr tbl sel c =
     (if c < length tbl then first_some (\<lambda>k. sel (tbl ! k)) (c_mro (tbl ! c)) else None)"

definition exit_status :: "classes \<Rightarrow> nat \<Rightarrow> int option" where
  "exit_status tbl c = class_attr tbl c_exit_status c"

definition message :: "classes \<Rightarrow> nat \<Rightarrow> string option" where
  "message tbl c = class_attr tbl c_message c"

definition prefix_name :: "classes \<Rightarrow> nat \<Rightarrow> bool option" where
  "prefix_name tbl c = class_attr tbl c_prefix_name c"

definition prefix_error :: "classes \<Rightarrow> nat \<Rightarrow> bool option" where
  "prefix_error tbl c = class_attr tbl c_prefix_error c"

text \<open>\<open>issubclass(c, b)\<close>: \<open>b\<close> is in the method resolution order of \<open>c\<close>.\<close>

definition issubclass :: "classes \<Rightarrow> nat \<Rightarrow> nat \<Rightarrow> bool" where
  "issubclass tbl c b = (c < length tbl \<and> b \<in> set (c_mro (tbl ! c)))"

subsection \<open>The classes of the module\<close>

text \<open>
  Class 0 is the builtin \<open>Exception\<close> (its own bases, which set none of the four
  attributes, are left out). The module \<open>userexit\<close> declares \<open>UserExit\<close> and
  \<open>UserAbort\<close>, in this order.
\<close>

definition Exception :: nat where "Exception = 0"
definition UserExit :: nat where "UserExit = 1"
definition UserAbort :: nat where "UserAbort = 2"

definition builtin_classes :: classes where
  "builtin_classes =
     [\<lparr>c_name = ''Exception'', c_bases = [], c_mro = [0],
       c_exit_status = None, c_message = None, c_prefix_name = None, c_prefix_error = None\<rparr>]"

definition UserExit_decl :: class_decl where
  "UserExit_decl =
     \<lparr>d_name = ''UserExit'', d_bases = [Exception],
      d_exit_status = Some 0, d_message = Some ''Execution ended normally.'',
      d_prefix_name = Some True, d_prefix_error = Some True\<rparr>"

definition UserAbort_decl :: class_decl where
  "UserAbort_decl =
     \<lparr>d_name = ''UserAbort'', d_bases = [UserExit],
      d_exit_status = Some 1, d_message = Some ''Execution aborted with an error.'',
      d_prefix_name = None, d_prefix_error = Some False\<rparr>"

definition userexit_classes :: classes where
  "userexit_classes = fst (exec_decls builtin_classes [UserExit_decl, UserAbort_decl])"

subsection \<open>The classes of the test module and of the demo\<close>

text \<open>A class statement whose body sets \<open>message\<close>, and \<open>exit_status\<close> when given.\<close>

definition variant_decl :: "string \<Rightarrow> nat list \<Rightarrow> int option \<Rightarrow> string \<Rightarrow> class_decl" where
  "variant_decl name bases status msg =
     \<lparr>d_name = name, d_bases = bases, d_exit_status = status, d_message = Some msg,
      d_prefix_name = None, d_prefix_error = None\<rparr>"

text \<open>The eight classes of \<open>test_userexit.py\<close>, in the order of the file.\<close>

definition FooExit :: nat where "FooExit = 3"
definition FooAbort :: nat where "FooAbort = 4"
definition BarAbort :: nat where "BarAbort = 5"
definition BarAbortVariant :: nat where "BarAbortVariant = 6"
definition BarAbortVariantB :: nat where "BarAbortVariantB = 7"
definition BarAbortVariantC :: nat where "BarAbortVariantC = 8"
definition BazAbort :: nat where "BazAbort = 9"
definition QuxAbort :: nat where "QuxAbort = 10"

definition test_decls :: "class_decl list" where
  "test_decls =
     [variant_decl ''FooExit'' [UserExit] None ''FooExit'',
      variant_decl ''FooAbort'' [UserAbort] (Some 80) ''FooAbort'',
      variant_decl ''BarAbort'' [UserAbort] None ''BarAbort'',
      variant_decl ''BarAbortVariant'' [BarAbort] None ''A specific type of BarAbort'',
      variant_decl ''BarAbortVariantB'' [BarAbort] (Some 85) ''A specific type of BarAbort B'',
      variant_decl ''BarAbortVariantC'' [BarAbort, UserAbort] None ''A specific type of BarAbort C'',
      variant_decl ''BazAbort'' [UserAbort] None ''BazAbort'',
      variant_decl ''QuxAbort'' [UserAbort] (Some 127) ''QuxAbort'']"

definition test_classes :: classes where
  "test_classes = fst (exec_decls userexit_classes test_decls)"

section \<open>The formatter\<close>

text \<open>
  A raised instance: its class and the positional arguments stored by the constructor
  of \<open>Exception\<close>. The instance's own dictionary holds none of the four attributes, so
  \<open>self.exit_status\<close> and the others are the attributes of its class.
\<close>

record exc_instance =
  i_cls :: nat
  i_args :: "pyval list"

text \<open>What \<open>self\<close> shows to \<open>str.format\<close>: the arguments and the four attributes.\<close>

record self_view =
  v_args :: "pyval list"
  v_exit_status :: "int option"
  v_message :: "string option"
  v_prefix_name :: "bool option"
  v_prefix_error :: "bool option"

definition view :: "classes \<Rightarrow> exc_instance \<Rightarrow> self_view" where
  "view tbl self =
     \<lparr>v_args = i_args self,
      v_exit_status = exit_status tbl (i_cls self),
      v_message = message tbl (i_cls self),
      v_prefix_name = prefix_name tbl (i_cls self),
      v_prefix_error = prefix_error tbl (i_cls self)\<rparr>"

text \<open>
  The functions of the Python standard library that the module calls are parameters of
  the model: \<open>textwrap.dedent\<close>, \<open>textwrap.fill\<close> (default width) and
  \<open>str.format\<close>, called as \<open>template.format(*args, self=self, argv=argv)\<close>.
  Section \<open>A model of the library\<close> gives them a definition for concrete runs.
\<close>

record pylib =
  dedent :: "string \<Rightarrow> string"
  fill :: "string \<Rightarrow> string"
  format :: "string \<Rightarrow> pyval list \<Rightarrow> self_view \<Rightarrow> string list \<Rightarrow> pyerr + string"

definition format_script :: "pylib \<Rightarrow> string \<Rightarrow> string" where
  "format_script L s = strip_py (dedent L s) @ [nl]"

definition format_msg :: "pylib \<Rightarrow> string \<Rightarrow> string" where
  "format_msg L s =
     join [nl, nl]
       (map (\<lambda>para. if contains ''>>>'' para then para else fill L para) (split_blank [] s))"

text \<open>Reading an attribute that no class of the resolution order sets raises.\<close>

definition getattr :: "'a option \<Rightarrow> pyerr + 'a" where
  "getattr v = (case v of None \<Rightarrow> Inl AttributeError | Some x \<Rightarrow> Inr x)"

fun and_then :: "pyerr + 'a \<Rightarrow> ('a \<Rightarrow> pyerr + 'b) \<Rightarrow> pyerr + 'b" where
  "and_then (Inl e) f = Inl e"
| "and_then (Inr x) f = f x"

text \<open>
  \<open>UserExit.__str__\<close>, first half: the template assembled in the local \<open>message\<close>.
  \<open>self.exit_status\<close> is read only when \<open>self.prefix_error\<close> is true.
\<close>

definition str_template :: "pylib \<Rightarrow> classes \<Rightarrow> exc_instance \<Rightarrow> pyerr + string" where
  "str_template L tbl self =
     and_then (getattr (prefix_name tbl (i_cls self))) (\<lambda>pn.
     and_then (getattr (prefix_error tbl (i_cls self))) (\<lambda>pe.
     and_then (if pe then and_then (getattr (exit_status tbl (i_cls self))) (\<lambda>st. Inr (st \<noteq> 0))
               else Inr False) (\<lambda>err.
     and_then (getattr (message tbl (i_cls self))) (\<lambda>msg.
       Inr ((if pn then ''{argv[0]}: '' else []) @ (if err then ''error: '' else []) @
            format_script L msg)))))"

text \<open>\<open>UserExit.__str__\<close>: the template, interpolated, then reflowed.\<close>

definition str_py :: "pylib \<Rightarrow> classes \<Rightarrow> string list \<Rightarrow> exc_instance \<Rightarrow> pyerr + string" where
  "str_py L tbl av self =
     and_then (str_template L tbl self) (\<lambda>m.
     and_then (format L m (i_args self) (view tbl self) av) (\<lambda>t.
       Inr (format_msg L t)))"

section \<open>The handler\<close>

text \<open>
  The state of the process that the handler reads or writes: \<open>sys.argv\<close> and the text
  written so far to the standard output and to the standard error stream.
\<close>

record world =
  argv :: "string list"
  stdout :: string
  stderr :: string

text \<open>
  What a call does: it returns a value or raises. An exception is an instance of a
  declared class, \<open>SystemExit\<close> with its status, or an error of the interpreter.
\<close>

datatype exc = Raised exc_instance | SystemExit int | Error pyerr

datatype outcome = Returns pyval | Raises exc

text \<open>
  \<open>UserExit.handle(fn)\<close>, applied to the arguments \<open>a\<close> in the world \<open>w\<close>. The body
  of \<open>inner\<close> calls \<open>fn\<close> as a statement and has no \<open>return\<close>. \<open>print(ex)\<close>
  renders the instance first and writes the text and a line break to \<open>sys.stdout\<close>;
  when rendering raises, nothing is written and that exception leaves the handler.
\<close>

definition handle ::
  "pylib \<Rightarrow> classes \<Rightarrow> ('a \<Rightarrow> world \<Rightarrow> outcome \<times> world) \<Rightarrow> 'a \<Rightarrow> world \<Rightarrow> outcome \<times> world" where
  "handle L tbl fn a w =
     (case fn a w of
        (Returns v, w1) \<Rightarrow> (Returns PNone, w1)
      | (Raises (Raised ex), w1) \<Rightarrow>
          if issubclass tbl (i_cls ex) UserExit then
            (case str_py L tbl (argv w1) ex of
               Inl e \<Rightarrow> (Raises (Error e), w1)
             | Inr text \<Rightarrow>
                 (case exit_status tbl (i_cls ex) of
                    None \<Rightarrow> (Raises (Error AttributeError), w1\<lparr>stdout := stdout w1 @ text @ [nl]\<rparr>)
                  | Some st \<Rightarrow> (Raises (SystemExit st), w1\<lparr>stdout := stdout w1 @ text @ [nl]\<rparr>)))
          else (Raises (Raised ex), w1)
      | (Raises e, w1) \<Rightarrow> (Raises e, w1))"

section \<open>A model of the library\<close>

text \<open>
  The three library functions as CPython 3 defines them, for concrete runs of the
  module. Strings hold code points below 256; the character classes are those of
  \<open>str\<close> and of the \<open>re\<close> module on that range.
\<close>

definition code :: "char \<Rightarrow> nat" where
  "code c = of_char c"

definition in_range :: "nat \<Rightarrow> nat \<Rightarrow> nat \<Rightarrow> bool" where
  "in_range lo hi n = (lo \<le> n \<and> n \<le> hi)"

text \<open>The classes \<open>\d\<close> and \<open>\w\<close> of \<open>re\<close>, and \<open>letter\<close> and \<open>word_punct\<close> of \<open>textwrap\<close>.\<close>

definition is_digit_char :: "char \<Rightarrow> bool" where
  "is_digit_char c = in_range 48 57 (code c)"

definition is_word_char :: "char \<Rightarrow> bool" where
  "is_word_char c =
     (let n = code c in
      in_range 48 57 n \<or> in_range 65 90 n \<or> n = 95 \<or> in_range 97 122 n \<or> n = 170 \<or>
      in_range 178 179 n \<or> n = 181 \<or> in_range 185 186 n \<or> in_range 188 190 n \<or>
      in_range 192 214 n \<or> in_range 216 246 n \<or> in_range 248 255 n)"

definition is_letter :: "char \<Rightarrow> bool" where
  "is_letter c = (is_word_char c \<and> \<not> is_digit_char c)"

definition is_word_punct :: "char \<Rightarrow> bool" where
  "is_word_punct c = (is_word_char c \<or> code c \<in> set [33, 34, 39, 38, 46, 44, 63])"

text \<open>\<open>textwrap._whitespace\<close>.\<close>

definition is_tw_space :: "char \<Rightarrow> bool" where
  "is_tw_space c = (code c \<in> set [9, 10, 11, 12, 13, 32])"

definition is_hyphen :: "char \<Rightarrow> bool" where
  "is_hyphen c = (c = CHR ''-'')"

subsection \<open>\<open>textwrap.fill\<close>\<close>

text \<open>\<open>text.expandtabs(8)\<close>; \<open>col\<close> is the column in the current line.\<close>

fun expandtabs :: "nat \<Rightarrow> string \<Rightarrow> string" where
  "expandtabs col [] = []"
| "expandtabs col (c # cs) =
     (if c = CHR 0x09 then
        replicate (8 - col mod 8) CHR '' '' @ expandtabs (col + (8 - col mod 8)) cs
      else if c = nl \<or> c = CHR 0x0D then c # expandtabs 0 cs
      else c # expandtabs (col + 1) cs)"

text \<open>\<open>_munge_whitespace\<close>: tabs expanded, then every whitespace character a space.\<close>

definition munge_whitespace :: "string \<Rightarrow> string" where
  "munge_whitespace text = map (\<lambda>c. if is_tw_space c then CHR '' '' else c) (expandtabs 0 text)"

text \<open>
  \<open>_split\<close> with \<open>wordsep_re\<close>. The expression matches at every position, so the
  chunks are its successive matches: a run of whitespace; or, after a \<open>word_punct\<close>
  character, a run of two or more hyphens followed by a word character; or a word.
  A word is the shortest run of one or more non-whitespace characters that is followed
  by a hyphen (taken into the word) between letters, or ends before whitespace or at the
  end of the text, or ends on a \<open>word_punct\<close> character before such a run of hyphens.
  The look-behinds read the text before the position, held reversed in \<open>rb\<close>.
\<close>

fun letters_around :: "string \<Rightarrow> bool" where
  "letters_around (a # b # c # r) = (is_letter a \<and> (is_letter b \<or> (is_hyphen b \<and> is_letter c)))"
| "letters_around [a, b] = (is_letter a \<and> is_letter b)"
| "letters_around [a] = False"
| "letters_around [] = False"

definition emdash_ahead :: "string \<Rightarrow> bool" where
  "emdash_ahead s =
     (2 \<le> length (takeWhile is_hyphen s) \<and>
      (case dropWhile is_hyphen s of [] \<Rightarrow> False | c # cs \<Rightarrow> is_word_char c))"

fun word_rest :: "string \<Rightarrow> string \<Rightarrow> string \<times> string" where
  "word_rest rb [] = ([], [])"
| "word_rest rb (c # cs) =
     (if is_hyphen c \<and> letters_around rb \<and> letters_around cs then ([c], cs)
      else if is_tw_space c then ([], c # cs)
      else if (case rb of [] \<Rightarrow> False | p # ps \<Rightarrow> is_word_punct p) \<and> emdash_ahead (c # cs)
        then ([], c # cs)
      else (case word_rest (c # rb) cs of (w, r) \<Rightarrow> (c # w, r)))"

lemma word_rest_length: "length (snd (word_rest rb s)) \<le> length s"
  by (induction rb s rule: word_rest.induct) (auto simp: le_SucI split: prod.splits)

function split_chunks :: "string \<Rightarrow> string \<Rightarrow> string list" where
  "split_chunks rb [] = []"
| "split_chunks rb (c # cs) =
     (if is_tw_space c then
        (c # takeWhile is_tw_space cs) #
        split_chunks (rev (takeWhile is_tw_space cs) @ c # rb) (dropWhile is_tw_space cs)
      else if (case rb of [] \<Rightarrow> False | p # ps \<Rightarrow> is_word_punct p) \<and> emdash_ahead (c # cs) then
        (c # takeWhile is_hyphen cs) #
        split_chunks (rev (takeWhile is_hyphen cs) @ c # rb) (dropWhile is_hyphen cs)
      else
        (c # fst (word_rest (c # rb) cs)) #
        split_chunks (rev (fst (word_rest (c # rb) cs)) @ c # rb) (snd (word_rest (c # rb) cs)))"
  by pat_completeness auto
termination
  by (relation "measure (\<lambda>(rb, s). length s)")
     (auto simp: length_dropWhile_le word_rest_length le_imp_less_Suc)

text \<open>\<open>chunk.strip() == ''\<close>.\<close>

definition blank :: "string \<Rightarrow> bool" where
  "blank s = (strip_py s = [])"

text \<open>The inner loop of \<open>_wrap_chunks\<close>: the chunks that fit the line, and the rest.\<close>

fun take_fitting :: "nat \<Rightarrow> nat \<Rightarrow> string list \<Rightarrow> string list \<times> string list" where
  "take_fitting width cur_len [] = ([], [])"
| "take_fitting width cur_len (c # cs) =
     (if cur_len + length c \<le> width then
        (case take_fitting width (cur_len + length c) cs of (t, r) \<Rightarrow> (c # t, r))
      else ([], c # cs))"

text \<open>\<open>chunk.rfind('-', 0, n)\<close>; \<open>None\<close> for \<open>-1\<close>.\<close>

definition rfind_hyphen :: "string \<Rightarrow> nat \<Rightarrow> nat option" where
  "rfind_hyphen chunk n =
     (if list_ex is_hyphen (take n chunk)
      then Some (length (take n chunk) - 1 - length (takeWhile (\<lambda>c. \<not> is_hyphen c) (rev (take n chunk))))
      else None)"

text \<open>
  \<open>_handle_long_word\<close> with \<open>break_long_words\<close> and \<open>break_on_hyphens\<close>: where the
  chunk is cut; the first part goes to the line, the second stays in the chunks.
\<close>

definition long_word_cut :: "string \<Rightarrow> nat \<Rightarrow> nat \<Rightarrow> nat" where
  "long_word_cut chunk cur_len width =
     (let space_left = (if width < 1 then 1 else width - cur_len) in
      if space_left < length chunk then
        (case rfind_hyphen chunk space_left of
           None \<Rightarrow> space_left
         | Some h \<Rightarrow>
             if 0 < h \<and> list_ex (\<lambda>c. \<not> is_hyphen c) (take h chunk) then h + 1 else space_left)
      else space_left)"

text \<open>
  One round of the outer loop of \<open>_wrap_chunks\<close> on a non-empty list of chunks:
  the chunks of the line (empty when no line is appended) and the chunks left.
  \<open>started\<close> says that \<open>lines\<close> is not empty.
\<close>

definition wrap_round :: "nat \<Rightarrow> bool \<Rightarrow> string list \<Rightarrow> string list \<times> string list" where
  "wrap_round width started chunks =
     (let chunks1 = (if blank (hd chunks) \<and> started then tl chunks else chunks);
          cur1 = fst (take_fitting width 0 chunks1);
          chunks2 = snd (take_fitting width 0 chunks1);
          cur_len = length (concat cur1);
          long = (case chunks2 of [] \<Rightarrow> False | c # cs \<Rightarrow> width < length c);
          cur2 = (if long then cur1 @ [take (long_word_cut (hd chunks2) cur_len width) (hd chunks2)]
                  else cur1);
          chunks3 = (if long then drop (long_word_cut (hd chunks2) cur_len width) (hd chunks2) # tl chunks2
                     else chunks2);
          cur3 = (if cur2 \<noteq> [] \<and> blank (last cur2) then butlast cur2 else cur2)
      in (cur3, chunks3))"

text \<open>The outer loop ends: every round shortens the chunks or removes one.\<close>

definition weight :: "string list \<Rightarrow> nat" where
  "weight chunks = length (concat chunks) + length chunks"

lemma weight_Cons: "weight (c # cs) = Suc (length c + weight cs)"
  by (simp add: weight_def)

lemma weight_Nil: "weight [] = 0"
  by (simp add: weight_def)

lemma weight_append: "weight (xs @ ys) = weight xs + weight ys"
  by (simp add: weight_def)

lemma take_fitting_append:
  "fst (take_fitting width n chunks) @ snd (take_fitting width n chunks) = chunks"
  by (induction width n chunks rule: take_fitting.induct) (auto split: prod.splits)

lemma take_fitting_weight:
  "weight (snd (take_fitting width n chunks)) + weight (fst (take_fitting width n chunks)) = weight chunks"
  using take_fitting_append [of width n chunks] weight_append
  by (metis add.commute)

lemma long_word_cut_pos:
  assumes "0 < width" and "width < length c"
  shows "0 < long_word_cut c 0 width"
  using assms by (auto simp: long_word_cut_def Let_def split: option.splits)

lemma wrap_round_decreases:
  assumes "chunks \<noteq> []" and "0 < width"
  shows "weight (snd (wrap_round width started chunks)) < weight chunks"
proof -
  define chunks1 where "chunks1 = (if blank (hd chunks) \<and> started then tl chunks else chunks)"
  define cur1 where "cur1 = fst (take_fitting width 0 chunks1)"
  define chunks2 where "chunks2 = snd (take_fitting width 0 chunks1)"
  define long where "long = (case chunks2 of [] \<Rightarrow> False | c # cs \<Rightarrow> width < length c)"
  define cut where "cut = long_word_cut (hd chunks2) (length (concat cur1)) width"
  define chunks3 where "chunks3 = (if long then drop cut (hd chunks2) # tl chunks2 else chunks2)"
  have snd_eq: "snd (wrap_round width started chunks) = chunks3"
    by (simp add: wrap_round_def Let_def chunks3_def cut_def long_def chunks2_def cur1_def chunks1_def)
  have w1: "weight chunks1 \<le> weight chunks"
    using assms(1) by (cases chunks) (auto simp: chunks1_def weight_Cons)
  have w2: "weight chunks2 + weight cur1 = weight chunks1"
    unfolding chunks2_def cur1_def by (rule take_fitting_weight)
  have w3: "weight chunks3 \<le> weight chunks2"
    by (cases chunks2) (auto simp: chunks3_def long_def weight_Cons)
  show ?thesis
  proof (cases "chunks1 = chunks")
    case False
    then have "weight chunks1 < weight chunks"
      using assms(1) by (cases chunks) (auto simp: chunks1_def weight_Cons split: if_splits)
    with w2 w3 snd_eq show ?thesis by simp
  next
    case same: True
    show ?thesis
    proof (cases cur1)
      case (Cons x xs)
      then have "0 < weight cur1" by (simp add: weight_Cons)
      with w1 w2 w3 snd_eq show ?thesis by simp
    next
      case Nil
      obtain c cs where c: "chunks1 = c # cs" using same assms(1) by (cases chunks) auto
      from Nil c have big: "width < length c"
        by (auto simp: cur1_def split: if_splits prod.splits)
      from Nil c have c2: "chunks2 = c # cs"
        using take_fitting_append [of width 0 chunks1] by (simp add: cur1_def chunks2_def)
      then have "long" using big by (simp add: long_def)
      moreover have "0 < cut"
        using long_word_cut_pos [OF assms(2) big] Nil c2 by (simp add: cut_def)
      ultimately have "weight chunks3 < weight chunks2"
        using c2 big assms(2) by (simp add: chunks3_def weight_Cons)
      with w1 w2 snd_eq show ?thesis by simp
    qed
  qed
qed

text \<open>\<open>_wrap_chunks\<close> with the default width of 70; \<open>fill\<close> joins its lines.\<close>

function wrap_chunks :: "bool \<Rightarrow> string list \<Rightarrow> string list" where
  "wrap_chunks started chunks =
     (if chunks = [] then []
      else if fst (wrap_round 70 started chunks) = []
        then wrap_chunks started (snd (wrap_round 70 started chunks))
      else concat (fst (wrap_round 70 started chunks)) #
           wrap_chunks True (snd (wrap_round 70 started chunks)))"
  by pat_completeness auto
termination
  by (relation "measure (\<lambda>(started, chunks). weight chunks)")
     (auto simp: wrap_round_decreases)

definition textwrap_fill :: "string \<Rightarrow> string" where
  "textwrap_fill text = join [nl] (wrap_chunks False (split_chunks [] (munge_whitespace text)))"

text \<open>
  Chunks, or lines, none of which is empty or holds a line break (no line break survives
  \<open>_munge_whitespace\<close>, and chunks and lines are pieces of the munged text).
\<close>

definition line_free :: "string list \<Rightarrow> bool" where
  "line_free chunks = list_all (\<lambda>c. c \<noteq> [] \<and> nl \<notin> set c) chunks"

subsection \<open>\<open>textwrap.dedent\<close>\<close>

text \<open>\<open>s.split('\n')\<close>; \<open>cur\<close> holds the current line, reversed.\<close>

fun split_lines :: "string \<Rightarrow> string \<Rightarrow> string list" where
  "split_lines cur [] = [rev cur]"
| "split_lines cur (c # cs) =
     (if c = nl then rev cur # split_lines [] cs else split_lines (c # cur) cs)"

definition is_indent_char :: "char \<Rightarrow> bool" where
  "is_indent_char c = (c = CHR '' '' \<or> c = CHR 0x09)"

text \<open>\<open>_whitespace_only_re.sub('', text)\<close>, on one line: a line of spaces and tabs is emptied.\<close>

definition clear_blank_line :: "string \<Rightarrow> string" where
  "clear_blank_line l = (if list_all is_indent_char l then [] else l)"

text \<open>
  \<open>_leading_whitespace_re.findall(text)\<close>, on one line: the leading spaces and tabs of
  a line that has another character.
\<close>

definition line_indent :: "string \<Rightarrow> string option" where
  "line_indent l = (if dropWhile is_indent_char l = [] then None else Some (takeWhile is_indent_char l))"

fun common_prefix :: "string \<Rightarrow> string \<Rightarrow> string" where
  "common_prefix (x # xs) (y # ys) = (if x = y then x # common_prefix xs ys else [])"
| "common_prefix xs ys = []"

text \<open>The loop over the indents that narrows \<open>margin\<close>; \<open>None\<close> is Python's \<open>None\<close>.\<close>

fun narrow_margin :: "string option \<Rightarrow> string option list \<Rightarrow> string option" where
  "narrow_margin margin [] = margin"
| "narrow_margin margin (None # rest) = narrow_margin margin rest"
| "narrow_margin None (Some indent # rest) = narrow_margin (Some indent) rest"
| "narrow_margin (Some margin) (Some indent # rest) =
     (if take (length margin) indent = margin then narrow_margin (Some margin) rest
      else if take (length indent) margin = indent then narrow_margin (Some indent) rest
      else narrow_margin (Some (common_prefix margin indent)) rest)"

definition remove_margin :: "string \<Rightarrow> string \<Rightarrow> string" where
  "remove_margin margin l = (if take (length margin) l = margin then drop (length margin) l else l)"

definition textwrap_dedent :: "string \<Rightarrow> string" where
  "textwrap_dedent text =
     (let ls = map clear_blank_line (split_lines [] text) in
      case narrow_margin None (map line_indent ls) of
        None \<Rightarrow> join [nl] ls
      | Some margin \<Rightarrow>
          if margin = [] then join [nl] ls else join [nl] (map (remove_margin margin) ls))"

subsection \<open>\<open>str\<close>, \<open>repr\<close> and \<open>str.format\<close>\<close>

fun nat_str :: "nat \<Rightarrow> string" where
  "nat_str n =
     (if n < 10 then [''0123456789'' ! n]
      else nat_str (n div 10) @ [''0123456789'' ! (n mod 10)])"

declare nat_str.simps [simp del]

definition int_str :: "int \<Rightarrow> string" where
  "int_str i = (if i < 0 then CHR ''-'' # nat_str (nat (- i)) else nat_str (nat i))"

definition hex2 :: "nat \<Rightarrow> string" where
  "hex2 n = [''0123456789abcdef'' ! (n div 16), ''0123456789abcdef'' ! (n mod 16)]"

definition backslash :: char where
  "backslash = CHR 0x5C"

text \<open>One character of \<open>repr\<close> of a string, inside the quote \<open>q\<close>.\<close>

definition repr_char :: "char \<Rightarrow> char \<Rightarrow> string" where
  "repr_char q c =
     (if c = q \<or> c = backslash then [backslash, c]
      else if c = CHR 0x09 then [backslash, CHR ''t'']
      else if c = nl then [backslash, CHR ''n'']
      else if c = CHR 0x0D then [backslash, CHR ''r'']
      else if code c < 32 \<or> code c = 127 then [backslash, CHR ''x''] @ hex2 (code c)
      else if code c < 127 then [c]
      else if in_range 128 160 (code c) \<or> code c = 173 then [backslash, CHR ''x''] @ hex2 (code c)
      else [c])"

text \<open>The quote of \<open>repr\<close>: double when the string has a single quote and no double one.\<close>

definition repr_quote :: "string \<Rightarrow> char" where
  "repr_quote s = (if CHR 0x27 \<in> set s \<and> CHR 0x22 \<notin> set s then CHR 0x22 else CHR 0x27)"

definition str_repr :: "string \<Rightarrow> string" where
  "str_repr s = [repr_quote s] @ concat (map (repr_char (repr_quote s)) s) @ [repr_quote s]"

fun py_str :: "pyval \<Rightarrow> string" where
  "py_str PNone = ''None''"
| "py_str (PBool b) = (if b then ''True'' else ''False'')"
| "py_str (PInt i) = int_str i"
| "py_str (PStr s) = s"
| "py_str (PList xs) = ''['' @ join '', '' (map str_repr xs) @ '']''"

fun py_repr :: "pyval \<Rightarrow> string" where
  "py_repr (PStr s) = str_repr s"
| "py_repr v = py_str v"

text \<open>
  The replacement fields of the modelled fragment of \<open>str.format\<close>: \<open>{}\<close> (the next
  positional argument), \<open>{N}\<close> (the positional argument \<open>N\<close>) and \<open>{argv[N]}\<close>,
  each with no conversion, with \<open>!r\<close> or with \<open>!s\<close>, and with no format
  specification. Any other field is outside the fragment.
\<close>

datatype field_ref = Auto | Index nat | ArgvItem nat

datatype conversion = NoConv | ReprConv | StrConv

definition small_number :: "string \<Rightarrow> bool" where
  "small_number s = (s \<noteq> [] \<and> length s \<le> 9 \<and> list_all is_digit_char s)"

definition digits_value :: "string \<Rightarrow> nat" where
  "digits_value s = foldl (\<lambda>n c. 10 * n + (code c - 48)) 0 s"

definition parse_conversion :: "string \<Rightarrow> conversion option" where
  "parse_conversion s =
     (if s = [] then Some NoConv
      else if s = ''!r'' then Some ReprConv
      else if s = ''!s'' then Some StrConv
      else None)"

definition parse_name :: "string \<Rightarrow> field_ref option" where
  "parse_name s =
     (if s = [] then Some Auto
      else if small_number s then Some (Index (digits_value s))
      else if take 5 s = ''argv['' \<and> drop (length s - 1) s = '']'' \<and>
              small_number (take (length s - 6) (drop 5 s))
        then Some (ArgvItem (digits_value (take (length s - 6) (drop 5 s))))
      else None)"

definition parse_field :: "string \<Rightarrow> (field_ref \<times> conversion) option" where
  "parse_field f =
     (case parse_name (takeWhile (\<lambda>c. c \<noteq> CHR ''!'') f) of
        None \<Rightarrow> None
      | Some r \<Rightarrow>
          (case parse_conversion (dropWhile (\<lambda>c. c \<noteq> CHR ''!'') f) of
             None \<Rightarrow> None
           | Some cv \<Rightarrow> Some (r, cv)))"

text \<open>
  Field numbering: not yet used, automatic (with the next index), or manual. A switch
  between automatic and manual numbering is a \<open>ValueError\<close>.
\<close>

datatype numbering = Unset | Automatic nat | Manual

definition item :: "'a list \<Rightarrow> nat \<Rightarrow> pyerr + 'a" where
  "item xs n = (if n < length xs then Inr (xs ! n) else Inl IndexError)"

fun resolve :: "numbering \<Rightarrow> field_ref \<Rightarrow> pyval list \<Rightarrow> string list \<Rightarrow> pyerr + (pyval \<times> numbering)" where
  "resolve Manual Auto args av = Inl ValueError"
| "resolve Unset Auto args av = and_then (item args 0) (\<lambda>v. Inr (v, Automatic 1))"
| "resolve (Automatic n) Auto args av = and_then (item args n) (\<lambda>v. Inr (v, Automatic (n + 1)))"
| "resolve (Automatic n) (Index k) args av = Inl ValueError"
| "resolve st (Index k) args av = and_then (item args k) (\<lambda>v. Inr (v, Manual))"
| "resolve st (ArgvItem k) args av = and_then (item av k) (\<lambda>s. Inr (PStr s, st))"

fun convert :: "conversion \<Rightarrow> pyval \<Rightarrow> string" where
  "convert ReprConv v = py_repr v"
| "convert StrConv v = py_str v"
| "convert NoConv v = py_str v"

definition prepend :: "string \<Rightarrow> pyerr + string \<Rightarrow> pyerr + string" where
  "prepend s r = (case r of Inl e \<Rightarrow> Inl e | Inr t \<Rightarrow> Inr (s @ t))"

text \<open>
  The template is read from the left: \<open>{{\<close> and \<open>}}\<close> are the literal braces, a single
  \<open>}\<close> and a field that is not closed are a \<open>ValueError\<close>, and a field is replaced
  by its converted value. The first error ends the formatting.
\<close>

function format_from :: "numbering \<Rightarrow> string \<Rightarrow> pyval list \<Rightarrow> string list \<Rightarrow> pyerr + string" where
  "format_from st [] args av = Inr []"
| "format_from st (c # cs) args av =
     (if c = CHR ''{'' then
        (if take 1 cs = ''{'' then prepend ''{'' (format_from st (drop 1 cs) args av)
         else if CHR ''{'' \<in> set (takeWhile (\<lambda>x. x \<noteq> CHR ''}'') cs) then Inl Unsupported
         else if dropWhile (\<lambda>x. x \<noteq> CHR ''}'') cs = [] then Inl ValueError
         else case parse_field (takeWhile (\<lambda>x. x \<noteq> CHR ''}'') cs) of
                None \<Rightarrow> Inl Unsupported
              | Some (r, cv) \<Rightarrow>
                  (case resolve st r args av of
                     Inl e \<Rightarrow> Inl e
                   | Inr (v, st') \<Rightarrow>
                       prepend (convert cv v)
                         (format_from st' (drop 1 (dropWhile (\<lambda>x. x \<noteq> CHR ''}'') cs)) args av)))
      else if c = CHR ''}'' then
        (if take 1 cs = ''}'' then prepend ''}'' (format_from st (drop 1 cs) args av)
         else Inl ValueError)
      else prepend [c] (format_from st cs args av))"
  by pat_completeness auto
termination
proof (relation "measure (\<lambda>(st, s, args, av). length s)")
  fix cs :: string
  have "length (dropWhile (\<lambda>x. x \<noteq> CHR ''}'') cs) \<le> length cs"
    by (rule length_dropWhile_le)
  then show "((st, drop 1 (dropWhile (\<lambda>x. x \<noteq> CHR ''}'') cs), args, av), st', c # cs, args, av)
      \<in> measure (\<lambda>(st, s, args, av). length s)" for st st' :: numbering and c args av
    by simp
qed auto

definition str_format :: "string \<Rightarrow> pyval list \<Rightarrow> self_view \<Rightarrow> string list \<Rightarrow> pyerr + string" where
  "str_format template args self av = format_from Unset template args av"

text \<open>The library, for the concrete runs.\<close>

definition cpython :: pylib where
  "cpython = \<lparr>dedent = textwrap_dedent, fill = textwrap_fill, format = str_format\<rparr>"

subsection \<open>The classes of the demo, and further class statements\<close>

text \<open>The two classes of \<open>demo.py\<close>; the first message is the indented docstring.\<close>

definition BadInputError :: nat where "BadInputError = 3"
definition TargetFileMissingError :: nat where "TargetFileMissingError = 4"

definition demo_decls :: "class_decl list" where
  "demo_decls =
     [variant_decl ''BadInputError'' [UserExit] (Some 3)
        ([nl] @ ''        Input {!r} should be set to {!r}. Please adjust your settings'' @
         [nl] @ ''        and re-run {argv[0]!r}.'' @ [nl] @ ''        ''),
      variant_decl ''TargetFileMissingError'' [UserExit] (Some 4)
        ''Please ensure the target file {} exists.'']"

definition demo_classes :: classes where
  "demo_classes = fst (exec_decls userexit_classes demo_decls)"

text \<open>
  Two parents that both derive from \<open>UserExit\<close>: \<open>Left\<close> (class 3) sets no status,
  \<open>Right\<close> (class 4) sets 5, and \<open>Both\<close> (class 5) lists \<open>Left\<close> first.
\<close>

definition diamond_decls :: "class_decl list" where
  "diamond_decls =
     [variant_decl ''Left'' [UserExit] None ''Left'',
      variant_decl ''Right'' [UserExit] (Some 5) ''Right'',
      variant_decl ''Both'' [3, 4] None ''Both'']"

definition diamond_classes :: classes where
  "diamond_classes = fst (exec_decls userexit_classes diamond_decls)"

text \<open>
  \<open>FooAbort\<close> (class 3) with the explicit status 80, as in the test module, then a
  class (class 4) that lists \<open>FooAbort\<close> and \<open>UserAbort\<close> and sets no status, as
  \<open>BarAbortVariantC\<close> does with \<open>BarAbort\<close>.
\<close>

definition relisted_decls :: "class_decl list" where
  "relisted_decls =
     [variant_decl ''FooAbort'' [UserAbort] (Some 80) ''FooAbort'',
      variant_decl ''FooAbortVariantC'' [3, UserAbort] None ''A specific type of FooAbort C'']"

definition relisted_classes :: classes where
  "relisted_classes = fst (exec_decls userexit_classes relisted_decls)"

text \<open>A chain of three: \<open>Base\<close> (class 3) sets 7, then its child and its grandchild.\<close>

definition chain_decls :: "class_decl list" where
  "chain_decls =
     [variant_decl ''Base'' [UserExit] (Some 7) ''Base'',
      variant_decl ''Child'' [3] None ''Child'',
      variant_decl ''Grandchild'' [4] None ''Grandchild'']"

text \<open>
  The class \<open>c\<close> was declared with the single parent \<open>p\<close>, which is not
  \<open>UserAbort\<close>, and with no \<open>exit_status\<close> in its body. A chain lists a class, its
  parent, the parent's parent and so on, each link such a declaration.
\<close>

definition inherits_from :: "classes \<Rightarrow> nat \<Rightarrow> nat \<Rightarrow> bool" where
  "inherits_from tbl c p =
     (c < length tbl \<and> c_bases (tbl ! c) = [p] \<and> p \<noteq> UserAbort \<and> c_exit_status (tbl ! c) = None)"

fun inherit_chain :: "classes \<Rightarrow> nat list \<Rightarrow> bool" where
  "inherit_chain tbl [] = True"
| "inherit_chain tbl [c] = True"
| "inherit_chain tbl (c # p # rest) = (inherits_from tbl c p \<and> inherit_chain tbl (p # rest))"

text \<open>
  The table is as class statements build it: every class comes after its bases, and its
  resolution order is the one computed from them.
\<close>

definition consistent :: "classes \<Rightarrow> bool" where
  "consistent tbl =
     list_all (\<lambda>c. list_all (\<lambda>b. b < c) (c_bases (tbl ! c)) \<and>
                    compute_mro tbl c (c_bases (tbl ! c)) = Some (c_mro (tbl ! c)))
       [0..<length tbl]"

subsection \<open>Entry points and a start state\<close>

definition raising :: "exc \<Rightarrow> unit \<Rightarrow> world \<Rightarrow> outcome \<times> world" where
  "raising x a w = (Raises x, w)"

definition returning :: "pyval \<Rightarrow> unit \<Rightarrow> world \<Rightarrow> outcome \<times> world" where
  "returning v a w = (Returns v, w)"

definition world0 :: world where
  "world0 = \<lparr>argv = [''prog''], stdout = [], stderr = []\<rparr>"

section \<open>Rendering in the state of the process\<close>











section \<open>Properties of class declaration\<close>

lemma userexit_classes_eq:
  "userexit_classes =
     [\<lparr>c_name = ''Exception'', c_bases = [], c_mro = [0],
       c_exit_status = None, c_message = None, c_prefix_name = None, c_prefix_error = None\<rparr>,
      \<lparr>c_name = ''UserExit'', c_bases = [0], c_mro = [1, 0],
       c_exit_status = Some 0, c_message = Some ''Execution ended normally.'',
       c_prefix_name = Some True, c_prefix_error = Some True\<rparr>,
      \<lparr>c_name = ''UserAbort'', c_bases = [1], c_mro = [2, 1, 0],
       c_exit_status = Some 1, c_message = Some ''Execution aborted with an error.'',
       c_prefix_name = None, c_prefix_error = Some False\<rparr>]"
  by (simp add: userexit_classes_def builtin_classes_def UserExit_decl_def UserAbort_decl_def
      class_stmt_def compute_mro_def new_class_def Exception_def UserExit_def)

lemma class_stmt_Inr:
  assumes "class_stmt tbl d = Inr (c, tbl')"
  shows "c = length tbl"
    and "\<exists>m. compute_mro tbl (length tbl) (d_bases d) = Some m \<and> tbl' = tbl @ [new_class d m]"
    and "list_all (\<lambda>b. b < length tbl) (d_bases d)"
  using assms
  by (auto simp: class_stmt_def list_ex_iff list_all_iff not_le split: if_splits option.splits)

lemma exec_decls_extends: "\<exists>xs. fst (exec_decls tbl ds) = tbl @ xs"
proof (induction ds arbitrary: tbl)
  case Nil
  then show ?case by simp
next
  case (Cons d ds)
  show ?case
  proof (cases "class_stmt tbl d")
    case (Inl e)
    then show ?thesis by simp
  next
    case (Inr r)
    obtain c tbl' where r: "r = (c, tbl')" by (cases r)
    with Inr obtain m where "tbl' = tbl @ [new_class d m]"
      using class_stmt_Inr(2) by blast
    moreover obtain ys where "fst (exec_decls tbl' ds) = tbl' @ ys"
      using Cons.IH by blast
    ultimately show ?thesis using Inr r by simp
  qed
qed

lemma compute_mro_append:
  assumes "list_all (\<lambda>b. b < length tbl) bases"
  shows "compute_mro (tbl @ xs) c bases = compute_mro tbl c bases"
proof (cases "\<exists>b. bases = [b]")
  case True
  then obtain b where b: "bases = [b]" by blast
  with assms have "(tbl @ xs) ! b = tbl ! b" by (simp add: nth_append)
  with b show ?thesis by (simp add: compute_mro_def)
next
  case False
  have eq: "map (\<lambda>b. c_mro ((tbl @ xs) ! b)) bases = map (\<lambda>b. c_mro (tbl ! b)) bases"
    using assms by (simp add: list_all_iff nth_append)
  have "compute_mro T c bases =
        map_option ((#) c) (pmerge (map (\<lambda>b. c_mro (T ! b)) bases @ [bases]))" for T
    using False by (auto simp: compute_mro_def split: list.splits)
  then show ?thesis using eq by (simp only:)
qed

lemma consistent_iff:
  "consistent tbl \<longleftrightarrow>
     (\<forall>c<length tbl. list_all (\<lambda>b. b < c) (c_bases (tbl ! c)) \<and>
        compute_mro tbl c (c_bases (tbl ! c)) = Some (c_mro (tbl ! c)))"
  by (auto simp: consistent_def list_all_iff)

lemma consistent_class_stmt:
  assumes "consistent tbl" and "class_stmt tbl d = Inr (c, tbl')"
  shows "consistent tbl'"
proof -
  obtain m where m: "compute_mro tbl (length tbl) (d_bases d) = Some m"
    and tbl': "tbl' = tbl @ [new_class d m]"
    using class_stmt_Inr(2) [OF assms(2)] by blast
  have bases: "list_all (\<lambda>b. b < length tbl) (d_bases d)"
    by (rule class_stmt_Inr(3) [OF assms(2)])
  show ?thesis
    unfolding consistent_iff
  proof (intro allI impI)
    fix k assume k: "k < length tbl'"
    show "list_all (\<lambda>b. b < k) (c_bases (tbl' ! k)) \<and>
          compute_mro tbl' k (c_bases (tbl' ! k)) = Some (c_mro (tbl' ! k))"
    proof (cases "k < length tbl")
      case True
      then have same: "tbl' ! k = tbl ! k" by (simp add: tbl' nth_append)
      from assms(1) True have old: "list_all (\<lambda>b. b < k) (c_bases (tbl ! k))"
        and mro: "compute_mro tbl k (c_bases (tbl ! k)) = Some (c_mro (tbl ! k))"
        by (simp_all add: consistent_iff)
      from old True have "list_all (\<lambda>b. b < length tbl) (c_bases (tbl ! k))"
        by (auto simp: list_all_iff)
      then have "compute_mro tbl' k (c_bases (tbl ! k)) = compute_mro tbl k (c_bases (tbl ! k))"
        unfolding tbl' by (rule compute_mro_append)
      with old mro same show ?thesis by simp
    next
      case False
      with k have keq: "k = length tbl" by (simp add: tbl')
      then have new: "tbl' ! k = new_class d m" by (simp add: tbl')
      have "compute_mro tbl' k (d_bases d) = compute_mro tbl k (d_bases d)"
        unfolding tbl' using bases by (rule compute_mro_append)
      with m keq new bases show ?thesis by (simp add: new_class_def)
    qed
  qed
qed

lemma consistent_exec_decls:
  "consistent tbl \<Longrightarrow> consistent (fst (exec_decls tbl ds))"
proof (induction ds arbitrary: tbl)
  case Nil
  then show ?case by simp
next
  case (Cons d ds)
  show ?case
  proof (cases "class_stmt tbl d")
    case (Inl e)
    with Cons.prems show ?thesis by simp
  next
    case (Inr r)
    obtain c tbl' where r: "r = (c, tbl')" by (cases r)
    with Inr Cons.prems have "consistent tbl'"
      using consistent_class_stmt by blast
    then have "consistent (fst (exec_decls tbl' ds))" by (rule Cons.IH)
    with Inr r show ?thesis by simp
  qed
qed

lemma consistent_userexit_classes: "consistent userexit_classes"
  by code_simp

lemma single_parent_mro:
  assumes "consistent tbl" and "c < length tbl" and "c_bases (tbl ! c) = [p]"
  shows "c_mro (tbl ! c) = c # c_mro (tbl ! p)" and "p < c"
  using assms by (auto simp: consistent_iff compute_mro_def)

lemma inherits_from_status:
  assumes "consistent tbl" and "inherits_from tbl c p"
  shows "exit_status tbl c = exit_status tbl p"
proof -
  from assms(2) have c: "c < length tbl" and b: "c_bases (tbl ! c) = [p]"
    and none: "c_exit_status (tbl ! c) = None"
    by (simp_all add: inherits_from_def)
  have "c_mro (tbl ! c) = c # c_mro (tbl ! p)" and "p < c"
    using single_parent_mro [OF assms(1) c b] by simp_all
  with c none show ?thesis
    by (simp add: exit_status_def class_attr_def)
qed

lemma inherit_chain_status:
  assumes "consistent tbl"
  shows "inherit_chain tbl (c # cs) \<Longrightarrow> exit_status tbl c = exit_status tbl (last (c # cs))"
proof (induction cs arbitrary: c)
  case Nil
  then show ?case by simp
next
  case (Cons p rest)
  then have "inherits_from tbl c p" and "inherit_chain tbl (p # rest)" by simp_all
  then have "exit_status tbl c = exit_status tbl p"
    and "exit_status tbl p = exit_status tbl (last (p # rest))"
    using inherits_from_status [OF assms] Cons.IH by simp_all
  then show ?case by simp
qed

lemma explicit_status_kept:
  assumes "class_stmt tbl d = Inr (c, tbl')" and "d_exit_status d = Some s"
  shows "exit_status tbl' c = Some s"
proof -
  obtain m where m: "compute_mro tbl (length tbl) (d_bases d) = Some m"
    and tbl': "tbl' = tbl @ [new_class d m]"
    using class_stmt_Inr(2) [OF assms(1)] by blast
  have c: "c = length tbl" by (rule class_stmt_Inr(1) [OF assms(1)])
  from m obtain rest where "m = c # rest"
    by (auto simp: compute_mro_def c split: list.splits)
  with c tbl' assms(2) show ?thesis
    by (simp add: exit_status_def class_attr_def new_class_def)
qed

lemma explicit_status_never_refused:
  "(\<exists>r. class_stmt tbl (d\<lparr>d_exit_status := Some s\<rparr>) = Inr r) \<longleftrightarrow> (\<exists>r. class_stmt tbl d = Inr r)"
  by (auto simp: class_stmt_def split: option.splits)

lemma first_some_defined:
  "k \<in> set ks \<Longrightarrow> f k = Some v \<Longrightarrow> \<exists>u. first_some f ks = Some u"
  by (induction ks) (auto split: option.splits)

lemma userexit_descendant_has_status:
  assumes "issubclass (fst (exec_decls userexit_classes ds)) c UserExit"
  shows "\<exists>st. exit_status (fst (exec_decls userexit_classes ds)) c = Some st"
proof -
  obtain xs where tbl: "fst (exec_decls userexit_classes ds) = userexit_classes @ xs"
    using exec_decls_extends by blast
  have "c_exit_status ((userexit_classes @ xs) ! 1) = Some 0"
    by (simp add: userexit_classes_eq)
  moreover from assms have "1 \<in> set (c_mro ((userexit_classes @ xs) ! c))"
    and "c < length (userexit_classes @ xs)"
    by (simp_all add: issubclass_def tbl UserExit_def)
  ultimately show ?thesis
    using first_some_defined [of 1 "c_mro ((userexit_classes @ xs) ! c)"
        "\<lambda>k. c_exit_status ((userexit_classes @ xs) ! k)" 0]
    by (simp add: exit_status_def class_attr_def tbl)
qed

section \<open>Exit statuses of declared variants\<close>

text \<open>
  C6: the exit status of \<open>UserExit\<close> is 0 and that of \<open>UserAbort\<close> is 1 after any
  sequence of further class statements, whatever their bases, their order and the
  statuses their bodies set, and whether or not one of them raises.
\<close>

theorem builtin_statuses_permanent:
  "exit_status (fst (exec_decls userexit_classes ds)) UserExit = Some 0 \<and>
   exit_status (fst (exec_decls userexit_classes ds)) UserAbort = Some 1"
proof -
  obtain xs where "fst (exec_decls userexit_classes ds) = userexit_classes @ xs"
    using exec_decls_extends by blast
  then show ?thesis
    by (simp add: userexit_classes_eq exit_status_def class_attr_def UserExit_def UserAbort_def)
qed

theorem builtin_statuses_permanent_witness:
  "exit_status test_classes UserExit = Some 0 \<and> exit_status test_classes UserAbort = Some 1"
  using builtin_statuses_permanent [of test_decls] by (simp add: test_classes_def)

text \<open>
  C1 (the code at the classes of the test module): \<open>BarAbort\<close>, \<open>BarAbortVariantC\<close>
  and \<open>BazAbort\<close> each list \<open>UserAbort\<close> among their parents and set no status. The
  class statement gives them no fresh status: each has the status 1 of \<open>UserAbort\<close>,
  found along its resolution order, so the three share one status, which is also the
  status reserved for \<open>UserAbort\<close>. The test module expects 79, 81 and 82.
\<close>

theorem test_module_abort_children_share_status:
  "exit_status test_classes BarAbort = Some 1 \<and>
   exit_status test_classes BarAbortVariantC = Some 1 \<and>
   exit_status test_classes BazAbort = Some 1 \<and>
   exit_status test_classes UserAbort = Some 1"
  by code_simp

text \<open>
  C4, as the code has it: a class declared with one parent other than \<open>UserAbort\<close> and
  with no \<open>exit_status\<close> of its own has the exit status of that parent, and so along
  any chain of such declarations, in every table that class statements build from the
  classes of the module.
\<close>

theorem single_parent_status_inherited:
  assumes "inherit_chain (fst (exec_decls userexit_classes ds)) (c # cs)"
  shows "exit_status (fst (exec_decls userexit_classes ds)) c =
         exit_status (fst (exec_decls userexit_classes ds)) (last (c # cs))"
proof -
  have "consistent (fst (exec_decls userexit_classes ds))"
    using consistent_userexit_classes by (rule consistent_exec_decls)
  then show ?thesis using assms by (rule inherit_chain_status)
qed

theorem single_parent_status_inherited_witness:
  "inherit_chain (fst (exec_decls userexit_classes chain_decls)) [5, 4, 3] \<and>
   exit_status (fst (exec_decls userexit_classes chain_decls)) 5 = Some 7 \<and>
   exit_status (fst (exec_decls userexit_classes chain_decls)) 3 = Some 7"
proof -
  have chain: "inherit_chain (fst (exec_decls userexit_classes chain_decls)) [5, 4, 3]"
    by code_simp
  have base: "exit_status (fst (exec_decls userexit_classes chain_decls)) 3 = Some 7"
    by code_simp
  from single_parent_status_inherited [OF chain] base chain show ?thesis by simp
qed

text \<open>
  C4 as stated fails with two parents: \<open>Both\<close> lists \<open>Left\<close> first, \<open>Left\<close> has the
  status 0 of \<open>UserExit\<close>, and \<open>Both\<close> has the status 5 that \<open>Right\<close> sets, since
  \<open>Right\<close> comes before \<open>UserExit\<close> in the resolution order of \<open>Both\<close>.
\<close>

theorem first_parent_status_counterexample:
  "c_bases (diamond_classes ! 5) = [3, 4] \<and>
   c_exit_status (diamond_classes ! 5) = None \<and>
   exit_status diamond_classes 3 = Some 0 \<and>
   exit_status diamond_classes 5 = Some 5"
  by code_simp

text \<open>
  C5 (the code where a later class lists \<open>UserAbort\<close> again): \<open>FooAbort\<close> sets the
  status 80; the class declared after it with the parents \<open>FooAbort\<close> and
  \<open>UserAbort\<close> and no status of its own has 80 too. Nothing has removed 80 from what
  later declarations receive.
\<close>

theorem explicit_status_handed_out_again:
  "exit_status relisted_classes 3 = Some 80 \<and>
   d_exit_status (relisted_decls ! 1) = None \<and>
   UserAbort \<in> set (c_bases (relisted_classes ! 4)) \<and>
   exit_status relisted_classes 4 = Some 80"
  by code_simp

section \<open>Properties of the handler\<close>

text \<open>
  C2, as the code has it, for the classes of the module and any classes declared after
  them. When the entry point raises an instance of a class that derives from
  \<open>UserExit\<close>: if its message renders, the handler writes the text and a line break
  and raises \<open>SystemExit\<close> with the exit status of the instance's class; if rendering
  raises, that exception leaves the handler and nothing is written. Any other exception
  passes through unchanged, with the state as the entry point left it.
\<close>

theorem handle_raised:
  assumes "fn a w = (Raises x, w1)"
  shows "(\<forall>ex t. x = Raised ex \<and>
            issubclass (fst (exec_decls userexit_classes ds)) (i_cls ex) UserExit \<and>
            str_py L (fst (exec_decls userexit_classes ds)) (argv w1) ex = Inr t \<longrightarrow>
          (\<exists>st. exit_status (fst (exec_decls userexit_classes ds)) (i_cls ex) = Some st \<and>
            handle L (fst (exec_decls userexit_classes ds)) fn a w =
              (Raises (SystemExit st), w1\<lparr>stdout := stdout w1 @ t @ [nl]\<rparr>))) \<and>
         (\<forall>ex e. x = Raised ex \<and>
            issubclass (fst (exec_decls userexit_classes ds)) (i_cls ex) UserExit \<and>
            str_py L (fst (exec_decls userexit_classes ds)) (argv w1) ex = Inl e \<longrightarrow>
          handle L (fst (exec_decls userexit_classes ds)) fn a w = (Raises (Error e), w1)) \<and>
         ((\<forall>ex. x = Raised ex \<longrightarrow>
            \<not> issubclass (fst (exec_decls userexit_classes ds)) (i_cls ex) UserExit) \<longrightarrow>
          handle L (fst (exec_decls userexit_classes ds)) fn a w = (Raises x, w1))"
proof (intro conjI allI impI)
  fix ex t
  assume h: "x = Raised ex \<and>
    issubclass (fst (exec_decls userexit_classes ds)) (i_cls ex) UserExit \<and>
    str_py L (fst (exec_decls userexit_classes ds)) (argv w1) ex = Inr t"
  then obtain st where st: "exit_status (fst (exec_decls userexit_classes ds)) (i_cls ex) = Some st"
    using userexit_descendant_has_status by blast
  with h assms
  have "handle L (fst (exec_decls userexit_classes ds)) fn a w =
          (Raises (SystemExit st), w1\<lparr>stdout := stdout w1 @ t @ [nl]\<rparr>)"
    by (simp add: handle_def)
  with st
  show "\<exists>st. exit_status (fst (exec_decls userexit_classes ds)) (i_cls ex) = Some st \<and>
          handle L (fst (exec_decls userexit_classes ds)) fn a w =
            (Raises (SystemExit st), w1\<lparr>stdout := stdout w1 @ t @ [nl]\<rparr>)"
    by blast
next
  fix ex e
  assume "x = Raised ex \<and>
    issubclass (fst (exec_decls userexit_classes ds)) (i_cls ex) UserExit \<and>
    str_py L (fst (exec_decls userexit_classes ds)) (argv w1) ex = Inl e"
  with assms
  show "handle L (fst (exec_decls userexit_classes ds)) fn a w = (Raises (Error e), w1)"
    by (simp add: handle_def)
next
  assume "\<forall>ex. x = Raised ex \<longrightarrow>
    \<not> issubclass (fst (exec_decls userexit_classes ds)) (i_cls ex) UserExit"
  with assms
  show "handle L (fst (exec_decls userexit_classes ds)) fn a w = (Raises x, w1)"
    by (cases x) (simp_all add: handle_def)
qed

theorem handle_raised_witness:
  "handle cpython demo_classes
     (raising (Raised \<lparr>i_cls = TargetFileMissingError, i_args = [PStr ''x.txt'']\<rparr>)) () world0 =
     (Raises (SystemExit 4),
      world0\<lparr>stdout := ''prog: error: Please ensure the target file x.txt exists.'' @ [nl]\<rparr>) \<and>
   handle cpython demo_classes
     (raising (Raised \<lparr>i_cls = BadInputError, i_args = [PBool True]\<rparr>)) () world0 =
     (Raises (Error IndexError), world0) \<and>
   handle cpython demo_classes
     (raising (Raised \<lparr>i_cls = Exception, i_args = [PStr ''boom'']\<rparr>)) () world0 =
     (Raises (Raised \<lparr>i_cls = Exception, i_args = [PStr ''boom'']\<rparr>), world0)"
proof -
  let ?missing = "\<lparr>i_cls = TargetFileMissingError, i_args = [PStr ''x.txt'']\<rparr>"
  let ?bad = "\<lparr>i_cls = BadInputError, i_args = [PBool True]\<rparr>"
  let ?other = "\<lparr>i_cls = Exception, i_args = [PStr ''boom'']\<rparr>"
  have sub: "issubclass demo_classes TargetFileMissingError UserExit"
    "issubclass demo_classes BadInputError UserExit"
    "\<not> issubclass demo_classes Exception UserExit"
    by code_simp+
  have rendered: "str_py cpython demo_classes (argv world0) ?missing =
      Inr ''prog: error: Please ensure the target file x.txt exists.''"
    by code_simp
  have err: "str_py cpython demo_classes (argv world0) ?bad = Inl IndexError"
    by code_simp
  have st: "exit_status demo_classes TargetFileMissingError = Some 4"
    by code_simp
  have r: "raising (Raised ex) () world0 = (Raises (Raised ex), world0)" for ex
    by (simp add: raising_def)
  from handle_raised [where fn = "raising (Raised ?missing)" and a = "()" and w = world0
      and ds = demo_decls and L = cpython, OF r] sub(1) rendered st
  have "handle cpython demo_classes (raising (Raised ?missing)) () world0 =
     (Raises (SystemExit 4),
      world0\<lparr>stdout := stdout world0 @ ''prog: error: Please ensure the target file x.txt exists.'' @ [nl]\<rparr>)"
    unfolding demo_classes_def by fastforce
  moreover have "stdout world0 = []" by (simp add: world0_def)
  moreover from handle_raised [where fn = "raising (Raised ?bad)" and a = "()" and w = world0
      and ds = demo_decls and L = cpython, OF r] sub(2) err
  have "handle cpython demo_classes (raising (Raised ?bad)) () world0 = (Raises (Error IndexError), world0)"
    unfolding demo_classes_def by fastforce
  moreover from handle_raised [where fn = "raising (Raised ?other)" and a = "()" and w = world0
      and ds = demo_decls and L = cpython, OF r] sub(3)
  have "handle cpython demo_classes (raising (Raised ?other)) () world0 = (Raises (Raised ?other), world0)"
    unfolding demo_classes_def by fastforce
  ultimately show ?thesis by simp
qed

text \<open>
  C2 as stated fails where the message does not render: \<open>TargetFileMissingError\<close> of
  the demo raised with no argument has no value for the field of its template, so
  \<open>print\<close> raises \<open>IndexError\<close>; the handler writes nothing and does not exit with the
  status 4 of the class.
\<close>

theorem handle_rendering_error_counterexample:
  "issubclass demo_classes TargetFileMissingError UserExit \<and>
   exit_status demo_classes TargetFileMissingError = Some 4 \<and>
   handle cpython demo_classes
     (raising (Raised \<lparr>i_cls = TargetFileMissingError, i_args = []\<rparr>)) () world0 =
     (Raises (Error IndexError), world0)"
  by code_simp

text \<open>
  C7, as the code has it: when the entry point returns a value, the wrapped entry point
  returns \<open>None\<close>, whatever the value was; the state is as the entry point left it.
\<close>

theorem handle_returns_none:
  assumes "fn a w = (Returns v, w1)"
  shows "handle L tbl fn a w = (Returns PNone, w1)"
  using assms by (simp add: handle_def)

theorem handle_returns_none_witness:
  "returning (PStr ''done'') () world0 = (Returns (PStr ''done''), world0) \<and>
   handle cpython userexit_classes (returning (PStr ''done'')) () world0 = (Returns PNone, world0)"
proof -
  have r: "returning (PStr ''done'') () world0 = (Returns (PStr ''done''), world0)"
    by (simp add: returning_def)
  from handle_returns_none [where fn = "returning (PStr ''done'')" and a = "()" and w = world0, OF r] r
  show ?thesis by simp
qed

text \<open>C7 as stated fails: an entry point that returns 42 returns \<open>None\<close> once wrapped.\<close>

theorem handle_return_value_counterexample:
  "fst (returning (PInt 42) () world0) = Returns (PInt 42) \<and>
   fst (handle cpython userexit_classes (returning (PInt 42)) () world0) \<noteq> Returns (PInt 42)"
  by code_simp

text \<open>
  C9, as the code has it: the handler never writes to the standard error stream, and
  when it intercepts an instance whose message renders, the text and a line break are
  appended to the standard output.
\<close>

theorem handle_writes_to_stdout:
  "stderr (snd (handle L tbl fn a w)) = stderr (snd (fn a w)) \<and>
   (\<forall>ex w1 t. fn a w = (Raises (Raised ex), w1) \<and> issubclass tbl (i_cls ex) UserExit \<and>
        str_py L tbl (argv w1) ex = Inr t \<longrightarrow>
      stdout (snd (handle L tbl fn a w)) = stdout w1 @ t @ [nl])"
proof (intro conjI allI impI)
  show "stderr (snd (handle L tbl fn a w)) = stderr (snd (fn a w))"
    by (cases "fn a w")
       (auto simp: handle_def split: outcome.splits exc.splits sum.splits option.splits)
next
  fix ex w1 t
  assume "fn a w = (Raises (Raised ex), w1) \<and> issubclass tbl (i_cls ex) UserExit \<and>
        str_py L tbl (argv w1) ex = Inr t"
  then show "stdout (snd (handle L tbl fn a w)) = stdout w1 @ t @ [nl]"
    by (auto simp: handle_def split: option.splits)
qed

theorem handle_writes_to_stdout_witness:
  "stderr (snd (handle cpython test_classes
      (raising (Raised \<lparr>i_cls = FooAbort, i_args = []\<rparr>)) () world0)) = [] \<and>
   stdout (snd (handle cpython test_classes
      (raising (Raised \<lparr>i_cls = FooAbort, i_args = []\<rparr>)) () world0)) = ''prog: FooAbort'' @ [nl]"
proof -
  let ?ex = "\<lparr>i_cls = FooAbort, i_args = []\<rparr>"
  have r: "raising (Raised ?ex) () world0 = (Raises (Raised ?ex), world0)"
    by (simp add: raising_def)
  have sub: "issubclass test_classes (i_cls ?ex) UserExit" by code_simp
  have rendered: "str_py cpython test_classes (argv world0) ?ex = Inr ''prog: FooAbort''"
    by code_simp
  have w: "stdout world0 = []" "stderr world0 = []" by (simp_all add: world0_def)
  from handle_writes_to_stdout [of cpython test_classes "raising (Raised ?ex)" "()" world0]
    r sub rendered w
  show ?thesis by simp
qed

text \<open>
  C9 as stated fails: for a raised \<open>UserAbort\<close> the message is on the standard output
  and the standard error stream is as it was.
\<close>

theorem handle_stream_counterexample:
  "stdout (snd (handle cpython userexit_classes
      (raising (Raised \<lparr>i_cls = UserAbort, i_args = []\<rparr>)) () world0)) =
     ''prog: Execution aborted with an error.'' @ [nl] \<and>
   stdout world0 = [] \<and>
   stderr (snd (handle cpython userexit_classes
      (raising (Raised \<lparr>i_cls = UserAbort, i_args = []\<rparr>)) () world0)) = stderr world0"
  by code_simp

section \<open>Properties of the formatter\<close>

lemma userabort_attributes:
  "prefix_name (fst (exec_decls userexit_classes ds)) UserAbort = Some True \<and>
   prefix_error (fst (exec_decls userexit_classes ds)) UserAbort = Some False \<and>
   message (fst (exec_decls userexit_classes ds)) UserAbort = Some ''Execution aborted with an error.''"
proof -
  obtain xs where "fst (exec_decls userexit_classes ds) = userexit_classes @ xs"
    using exec_decls_extends by blast
  then show ?thesis
    by (simp add: userexit_classes_eq prefix_name_def prefix_error_def message_def
        class_attr_def UserAbort_def)
qed

text \<open>
  C3, as the code has it. \<open>UserAbort\<close> sets \<open>prefix_error\<close> to false, also after any
  further class statements, so the template of a raised \<open>UserAbort\<close> is the program
  name field followed directly by the message. The prefix \<open>error: \<close> stands after
  the program name field and before the message for an instance of a class whose
  \<open>prefix_error\<close> is true and whose exit status is not 0.
\<close>

theorem error_prefix_rule:
  "prefix_error (fst (exec_decls userexit_classes ds)) UserAbort = Some False \<and>
   str_template L (fst (exec_decls userexit_classes ds)) \<lparr>i_cls = UserAbort, i_args = args\<rparr> =
     Inr (''{argv[0]}: '' @ format_script L ''Execution aborted with an error.'') \<and>
   (\<forall>tbl (self :: exc_instance) pn st m.
      prefix_name tbl (i_cls self) = Some pn \<and> prefix_error tbl (i_cls self) = Some True \<and>
      exit_status tbl (i_cls self) = Some st \<and> st \<noteq> 0 \<and> message tbl (i_cls self) = Some m \<longrightarrow>
      str_template L tbl self =
        Inr ((if pn then ''{argv[0]}: '' else []) @ ''error: '' @ format_script L m))"
proof (intro conjI allI impI)
  show "prefix_error (fst (exec_decls userexit_classes ds)) UserAbort = Some False"
    using userabort_attributes by blast
  show "str_template L (fst (exec_decls userexit_classes ds)) \<lparr>i_cls = UserAbort, i_args = args\<rparr> =
     Inr (''{argv[0]}: '' @ format_script L ''Execution aborted with an error.'')"
    using userabort_attributes [of ds] by (simp add: str_template_def getattr_def)
next
  fix tbl and self :: exc_instance and pn st m
  assume "prefix_name tbl (i_cls self) = Some pn \<and> prefix_error tbl (i_cls self) = Some True \<and>
      exit_status tbl (i_cls self) = Some st \<and> st \<noteq> 0 \<and> message tbl (i_cls self) = Some m"
  then show "str_template L tbl self =
        Inr ((if pn then ''{argv[0]}: '' else []) @ ''error: '' @ format_script L m)"
    by (simp add: str_template_def getattr_def)
qed

theorem error_prefix_rule_witness:
  "prefix_error demo_classes UserAbort = Some False \<and>
   str_template cpython demo_classes \<lparr>i_cls = UserAbort, i_args = []\<rparr> =
     Inr (''{argv[0]}: Execution aborted with an error.'' @ [nl]) \<and>
   str_template cpython demo_classes \<lparr>i_cls = TargetFileMissingError, i_args = [PStr ''x.txt'']\<rparr> =
     Inr (''{argv[0]}: error: Please ensure the target file {} exists.'' @ [nl])"
proof -
  let ?ex = "\<lparr>i_cls = TargetFileMissingError, i_args = [PStr ''x.txt'']\<rparr>"
  have attrs: "prefix_name demo_classes (i_cls ?ex) = Some True"
    "prefix_error demo_classes (i_cls ?ex) = Some True"
    "exit_status demo_classes (i_cls ?ex) = Some 4"
    "message demo_classes (i_cls ?ex) = Some ''Please ensure the target file {} exists.''"
    by code_simp+
  have scripts: "format_script cpython ''Execution aborted with an error.'' =
      ''Execution aborted with an error.'' @ [nl]"
    "format_script cpython ''Please ensure the target file {} exists.'' =
      ''Please ensure the target file {} exists.'' @ [nl]"
    by code_simp+
  note rule = error_prefix_rule [of demo_decls cpython "[]", folded demo_classes_def]
  from rule have abort: "prefix_error demo_classes UserAbort = Some False"
    "str_template cpython demo_classes \<lparr>i_cls = UserAbort, i_args = []\<rparr> =
       Inr (''{argv[0]}: '' @ format_script cpython ''Execution aborted with an error.'')"
    by (rule conjunct1, rule conjunct2 [THEN conjunct1])
  from rule have "\<forall>tbl (self :: exc_instance) pn st m.
      prefix_name tbl (i_cls self) = Some pn \<and> prefix_error tbl (i_cls self) = Some True \<and>
      exit_status tbl (i_cls self) = Some st \<and> st \<noteq> 0 \<and> message tbl (i_cls self) = Some m \<longrightarrow>
      str_template cpython tbl self =
        Inr ((if pn then ''{argv[0]}: '' else []) @ ''error: '' @ format_script cpython m)"
    by (rule conjunct2 [THEN conjunct2])
  then have "prefix_name demo_classes (i_cls ?ex) = Some True \<and>
      prefix_error demo_classes (i_cls ?ex) = Some True \<and>
      exit_status demo_classes (i_cls ?ex) = Some 4 \<and> (4::int) \<noteq> 0 \<and>
      message demo_classes (i_cls ?ex) = Some ''Please ensure the target file {} exists.'' \<longrightarrow>
    str_template cpython demo_classes ?ex =
      Inr ((if True then ''{argv[0]}: '' else []) @ ''error: '' @
           format_script cpython ''Please ensure the target file {} exists.'')"
    by (elim allE)
  with attrs have "str_template cpython demo_classes ?ex =
      Inr (''{argv[0]}: '' @ ''error: '' @
           format_script cpython ''Please ensure the target file {} exists.'')"
    by simp
  with abort scripts show ?thesis by simp
qed

text \<open>
  C3 as stated fails: \<open>prefix_error\<close> of \<open>UserAbort\<close> is false, and a raised
  \<open>UserAbort\<close> (exit status 1) renders with no \<open>error: \<close> prefix.
\<close>

theorem abort_error_prefix_counterexample:
  "prefix_error userexit_classes UserAbort = Some False \<and>
   exit_status userexit_classes UserAbort = Some 1 \<and>
   str_py cpython userexit_classes [''prog''] \<lparr>i_cls = UserAbort, i_args = []\<rparr> =
     Inr ''prog: Execution aborted with an error.'' \<and>
   \<not> contains ''error: '' ''prog: Execution aborted with an error.''"
  by code_simp

subsection \<open>Line breaks at the ends of the output\<close>

lemma strip_py_ends:
  "strip_py s = [] \<or> (\<not> py_isspace (hd (strip_py s)) \<and> \<not> py_isspace (last (strip_py s)))"
proof (cases "strip_py s = []")
  case True
  then show ?thesis by simp
next
  case False
  define u where "u = dropWhile py_isspace s"
  define v where "v = dropWhile py_isspace (rev u)"
  have body: "strip_py s = rev v" by (simp add: strip_py_def u_def v_def)
  with False have v: "v \<noteq> []" by simp
  then have "\<not> py_isspace (hd v)" unfolding v_def by (rule hd_dropWhile)
  then have right: "\<not> py_isspace (last (strip_py s))" using v by (simp add: body last_rev)
  have "rev u = takeWhile py_isspace (rev u) @ v" by (simp add: v_def)
  then have "last (rev u) = last v" using v by (metis last_appendR)
  moreover from v have u: "u \<noteq> []" by (auto simp: v_def)
  ultimately have "last v = hd u" by (simp add: last_rev)
  moreover from u have "\<not> py_isspace (hd u)" unfolding u_def by (rule hd_dropWhile)
  ultimately have "\<not> py_isspace (hd (strip_py s))" using v by (simp add: body hd_rev)
  with right show ?thesis by simp
qed

lemma join_last:
  "xs \<noteq> [] \<Longrightarrow> last xs \<noteq> [] \<Longrightarrow> join sep xs \<noteq> [] \<and> last (join sep xs) = last (last xs)"
  by (induction sep xs rule: join.induct) auto

lemma munge_whitespace_no_nl: "nl \<notin> set (munge_whitespace t)"
  by (auto simp: munge_whitespace_def is_tw_space_def code_def nl_def)

lemma word_rest_subset:
  "set (fst (word_rest rb s)) \<subseteq> set s \<and> set (snd (word_rest rb s)) \<subseteq> set s"
  by (induction rb s rule: word_rest.induct) (auto split: prod.splits)

lemma pieces_step:
  assumes "x \<noteq> []" and "set x \<subseteq> set s" and "set r \<subseteq> set s"
    and "\<forall>k \<in> set ks. k \<noteq> [] \<and> set k \<subseteq> set r"
  shows "\<forall>k \<in> set (x # ks). k \<noteq> [] \<and> set k \<subseteq> set s"
  using assms by auto

lemma split_chunks_pieces:
  "\<forall>k \<in> set (split_chunks rb s). k \<noteq> [] \<and> set k \<subseteq> set s"
proof (induction rb s rule: split_chunks.induct)
  case (1 rb)
  then show ?case by simp
next
  case (2 rb c cs)
  have tw: "set (c # takeWhile P cs) \<subseteq> set (c # cs)" for P :: "char \<Rightarrow> bool"
    by (auto dest: set_takeWhileD)
  have dw: "set (dropWhile P cs) \<subseteq> set (c # cs)" for P :: "char \<Rightarrow> bool"
    by (auto dest: set_dropWhileD)
  have wr: "set (c # fst (word_rest (c # rb) cs)) \<subseteq> set (c # cs)"
    "set (snd (word_rest (c # rb) cs)) \<subseteq> set (c # cs)"
    using word_rest_subset [of "c # rb" cs] by auto
  show ?case
  proof (cases "is_tw_space c")
    case True
    then have eq: "split_chunks rb (c # cs) =
        (c # takeWhile is_tw_space cs) #
        split_chunks (rev (takeWhile is_tw_space cs) @ c # rb) (dropWhile is_tw_space cs)"
      by simp
    show ?thesis
      unfolding eq by (rule pieces_step [OF _ tw dw 2(1) [OF True]]) simp
  next
    case space: False
    show ?thesis
    proof (cases "(case rb of [] \<Rightarrow> False | p # ps \<Rightarrow> is_word_punct p) \<and> emdash_ahead (c # cs)")
      case True
      with space have eq: "split_chunks rb (c # cs) =
          (c # takeWhile is_hyphen cs) #
          split_chunks (rev (takeWhile is_hyphen cs) @ c # rb) (dropWhile is_hyphen cs)"
        by simp
      show ?thesis
        unfolding eq by (rule pieces_step [OF _ tw dw 2(2) [OF space True]]) simp
    next
      case False
      with space have eq: "split_chunks rb (c # cs) =
          (c # fst (word_rest (c # rb) cs)) #
          split_chunks (rev (fst (word_rest (c # rb) cs)) @ c # rb) (snd (word_rest (c # rb) cs))"
        by auto
      show ?thesis
        unfolding eq by (rule pieces_step [OF _ wr 2(3) [OF space False]]) simp
    qed
  qed
qed

lemma split_chunks_line_free: "line_free (split_chunks [] (munge_whitespace t))"
  using split_chunks_pieces [of "[]" "munge_whitespace t"] munge_whitespace_no_nl [of t]
  by (auto simp: line_free_def list_all_iff)

lemma rfind_hyphen_less: "rfind_hyphen c k = Some h \<Longrightarrow> h < k"
proof -
  assume a: "rfind_hyphen c k = Some h"
  then have ex: "list_ex is_hyphen (take k c)"
    by (simp add: rfind_hyphen_def split: if_splits)
  then have "take k c \<noteq> []" by (cases "take k c") simp_all
  then have pos: "0 < length (take k c)" by simp
  from a ex
  have "h = length (take k c) - 1 - length (takeWhile (\<lambda>x. \<not> is_hyphen x) (rev (take k c)))"
    by (simp add: rfind_hyphen_def)
  with pos have "h < length (take k c)" by arith
  then show ?thesis by simp
qed

lemma long_word_cut_less:
  assumes "width < length c" and "0 < width"
  shows "long_word_cut c n width < length c"
proof -
  have sl: "width - n < length c" using assms by arith
  show ?thesis
  proof (cases "rfind_hyphen c (width - n)")
    case None
    with sl assms(2) show ?thesis
      by (simp add: long_word_cut_def Let_def)
  next
    case (Some h)
    then have "h < width - n" by (rule rfind_hyphen_less)
    with sl have "h + 1 < length c" by arith
    with sl Some assms(2) show ?thesis
      by (simp add: long_word_cut_def Let_def)
  qed
qed

lemma wrap_round_line_free:
  assumes "line_free chunks" and "chunks \<noteq> []"
  shows "line_free (fst (wrap_round 70 started chunks)) \<and> line_free (snd (wrap_round 70 started chunks))"
proof -
  define chunks1 where "chunks1 = (if blank (hd chunks) \<and> started then tl chunks else chunks)"
  define cur1 where "cur1 = fst (take_fitting 70 0 chunks1)"
  define chunks2 where "chunks2 = snd (take_fitting 70 0 chunks1)"
  define long where "long = (case chunks2 of [] \<Rightarrow> False | c # cs \<Rightarrow> 70 < length c)"
  define cut where "cut = long_word_cut (hd chunks2) (length (concat cur1)) 70"
  define cur2 where "cur2 = (if long then cur1 @ [take cut (hd chunks2)] else cur1)"
  define chunks3 where "chunks3 = (if long then drop cut (hd chunks2) # tl chunks2 else chunks2)"
  define cur3 where "cur3 = (if cur2 \<noteq> [] \<and> blank (last cur2) then butlast cur2 else cur2)"
  have eq: "wrap_round 70 started chunks = (cur3, chunks3)"
    by (simp add: wrap_round_def Let_def cur3_def chunks3_def cur2_def cut_def long_def
        chunks2_def cur1_def chunks1_def)
  have c1: "line_free chunks1"
    using assms by (cases chunks) (auto simp: chunks1_def line_free_def)
  have "cur1 @ chunks2 = chunks1"
    unfolding cur1_def chunks2_def by (rule take_fitting_append)
  with c1 have cur1: "line_free cur1" and c2: "line_free chunks2"
    by (auto simp: line_free_def list_all_iff)
  have c3: "line_free chunks3"
  proof (cases long)
    case False
    with c2 show ?thesis by (simp add: chunks3_def)
  next
    case True
    then obtain c cs where ccs: "chunks2 = c # cs" and big: "70 < length c"
      by (auto simp: long_def split: list.splits)
    then have "cut < length c" using long_word_cut_less [of 70 c] by (simp add: cut_def)
    then have "drop cut c \<noteq> []" by simp
    moreover have "nl \<notin> set (drop cut c)"
      using c2 ccs by (auto simp: line_free_def dest: in_set_dropD)
    ultimately show ?thesis using c2 ccs True by (simp add: chunks3_def line_free_def)
  qed
  have "line_free cur3"
  proof (cases "long \<and> take cut (hd chunks2) = []")
    case True
    then have "cur2 = cur1 @ [[]]" by (simp add: cur2_def)
    then have "cur3 = cur1" by (simp add: cur3_def blank_def strip_py_def)
    with cur1 show ?thesis by simp
  next
    case False
    have "nl \<notin> set (take cut (hd chunks2))" if long
    proof -
      from that obtain c cs where "chunks2 = c # cs" by (auto simp: long_def split: list.splits)
      with c2 show ?thesis by (auto simp: line_free_def dest: in_set_takeD)
    qed
    with False cur1 have "line_free cur2"
      by (auto simp: cur2_def line_free_def)
    then show ?thesis
      by (auto simp: cur3_def line_free_def list_all_iff dest: in_set_butlastD)
  qed
  with c3 eq show ?thesis by simp
qed

lemma wrap_chunks_lines:
  "line_free chunks \<Longrightarrow> line_free (wrap_chunks started chunks)"
proof (induction started chunks rule: wrap_chunks.induct)
  case (1 started chunks)
  show ?case
  proof (cases "chunks = []")
    case True
    then show ?thesis by (subst wrap_chunks.simps) (simp add: line_free_def)
  next
    case False
    note round = wrap_round_line_free [OF "1.prems" False, of started]
    show ?thesis
    proof (cases "fst (wrap_round 70 started chunks) = []")
      case True
      with False have eq: "wrap_chunks started chunks =
          wrap_chunks started (snd (wrap_round 70 started chunks))"
        by (subst wrap_chunks.simps) (simp del: wrap_chunks.simps)
      from round have "line_free (wrap_chunks started (snd (wrap_round 70 started chunks)))"
        using "1.IH"(1) [OF False True] by blast
      then show ?thesis by (simp only: eq)
    next
      case line: False
      with False have eq: "wrap_chunks started chunks =
          concat (fst (wrap_round 70 started chunks)) #
          wrap_chunks True (snd (wrap_round 70 started chunks))"
        by (subst wrap_chunks.simps) (simp del: wrap_chunks.simps)
      from round have rest: "line_free (wrap_chunks True (snd (wrap_round 70 started chunks)))"
        using "1.IH"(2) [OF False line] by blast
      from round line have "concat (fst (wrap_round 70 started chunks)) \<noteq> []"
        and "nl \<notin> set (concat (fst (wrap_round 70 started chunks)))"
        by (auto simp: line_free_def list_all_iff)
      with rest show ?thesis
        unfolding eq by (simp add: line_free_def del: wrap_chunks.simps)
    qed
  qed
qed

lemma textwrap_fill_end: "textwrap_fill p = [] \<or> last (textwrap_fill p) \<noteq> nl"
proof -
  define ls where "ls = wrap_chunks False (split_chunks [] (munge_whitespace p))"
  have fill: "textwrap_fill p = join [nl] ls"
    by (simp only: textwrap_fill_def ls_def)
  have free: "line_free ls"
    unfolding ls_def using split_chunks_line_free by (rule wrap_chunks_lines)
  show ?thesis
  proof (cases "ls = []")
    case True
    then show ?thesis by (simp add: fill)
  next
    case False
    then have "last ls \<in> set ls" by simp
    with free have nonempty: "last ls \<noteq> []" and no_nl: "nl \<notin> set (last ls)"
      by (auto simp: line_free_def list_all_iff)
    from join_last [OF False nonempty] have "last (join [nl] ls) = last (last ls)" by simp
    moreover from nonempty have "last (last ls) \<in> set (last ls)" by simp
    ultimately have "last (join [nl] ls) \<noteq> nl" using no_nl by metis
    then show ?thesis by (simp add: fill)
  qed
qed

lemma split_blank_nonempty: "split_blank cur s \<noteq> []"
  by (induction cur s rule: split_blank.induct) auto

text \<open>
  C8, as the code has it. (1) For every template, \<open>format_script\<close> gives a text that
  ends with a line break and, before it, neither begins nor ends with whitespace: exactly
  one trailing line break. (2) The final output is that text, interpolated and then
  reflowed; reflowing drops the trailing line break of a wrapped paragraph. With
  \<open>textwrap.fill\<close> as modelled, whenever the last paragraph has no \<open>>>>\<close> marker and is
  not wrapped to nothing, the final output does not end with a line break.
\<close>

theorem output_line_breaks:
  "(\<exists>body. format_script L s = body @ [nl] \<and>
      (body = [] \<or> (\<not> py_isspace (hd body) \<and> \<not> py_isspace (last body)))) \<and>
   (\<forall>t. \<not> contains ''>>>'' (last (split_blank [] t)) \<and>
        textwrap_fill (last (split_blank [] t)) \<noteq> [] \<longrightarrow>
      format_msg cpython t \<noteq> [] \<and> last (format_msg cpython t) \<noteq> nl)"
proof (rule conjI)
  show "\<exists>body. format_script L s = body @ [nl] \<and>
      (body = [] \<or> (\<not> py_isspace (hd body) \<and> \<not> py_isspace (last body)))"
    using strip_py_ends [of "dedent L s"] by (auto simp: format_script_def)
next
  have "format_msg cpython t \<noteq> [] \<and> last (format_msg cpython t) \<noteq> nl"
    if h: "\<not> contains ''>>>'' (last (split_blank [] t)) \<and>
        textwrap_fill (last (split_blank [] t)) \<noteq> []" for t
  proof -
    define ps where "ps = map (\<lambda>para. if contains ''>>>'' para then para else fill cpython para)
        (split_blank [] t)"
    have ne: "ps \<noteq> []" by (simp add: ps_def split_blank_nonempty)
    have "last ps = textwrap_fill (last (split_blank [] t))"
      using h by (simp add: ps_def last_map split_blank_nonempty cpython_def)
    with h textwrap_fill_end [of "last (split_blank [] t)"]
    have "last ps \<noteq> []" and "last (last ps) \<noteq> nl" by auto
    with join_last [OF ne, of "[nl, nl]"]
    show ?thesis
      by (simp add: format_msg_def ps_def [symmetric])
  qed
  then show "\<forall>t. \<not> contains ''>>>'' (last (split_blank [] t)) \<and>
        textwrap_fill (last (split_blank [] t)) \<noteq> [] \<longrightarrow>
      format_msg cpython t \<noteq> [] \<and> last (format_msg cpython t) \<noteq> nl"
    by blast
qed

theorem output_line_breaks_witness:
  "format_script cpython ([nl] @ ''    Input {!r} invalid'' @ [nl] @ ''    '') =
     ''Input {!r} invalid'' @ [nl] \<and>
   \<not> contains ''>>>'' (last (split_blank [] (''prog: Input True invalid'' @ [nl]))) \<and>
   textwrap_fill (last (split_blank [] (''prog: Input True invalid'' @ [nl]))) \<noteq> [] \<and>
   format_msg cpython (''prog: Input True invalid'' @ [nl]) \<noteq> [] \<and>
   last (format_msg cpython (''prog: Input True invalid'' @ [nl])) \<noteq> nl"
proof -
  let ?s = "[nl] @ ''    Input {!r} invalid'' @ [nl] @ ''    ''"
  let ?t = "''prog: Input True invalid'' @ [nl]"
  have script: "format_script cpython ?s = ''Input {!r} invalid'' @ [nl]"
    by code_simp
  have para: "\<not> contains ''>>>'' (last (split_blank [] ?t)) \<and>
      textwrap_fill (last (split_blank [] ?t)) \<noteq> []"
    by code_simp
  from output_line_breaks [of cpython ?s]
  have "\<forall>t. \<not> contains ''>>>'' (last (split_blank [] t)) \<and>
        textwrap_fill (last (split_blank [] t)) \<noteq> [] \<longrightarrow>
      format_msg cpython t \<noteq> [] \<and> last (format_msg cpython t) \<noteq> nl"
    by (rule conjunct2)
  then have "\<not> contains ''>>>'' (last (split_blank [] ?t)) \<and>
        textwrap_fill (last (split_blank [] ?t)) \<noteq> [] \<longrightarrow>
      format_msg cpython ?t \<noteq> [] \<and> last (format_msg cpython ?t) \<noteq> nl"
    by (rule spec)
  with para have "format_msg cpython ?t \<noteq> [] \<and> last (format_msg cpython ?t) \<noteq> nl"
    by (rule rev_mp)
  with script para show ?thesis by blast
qed

text \<open>
  C8 as stated fails: a raised \<open>UserExit\<close> under the argument vector \<open>['prog']\<close>
  renders as one line with no line break at its end.
\<close>

theorem output_trailing_line_break_counterexample:
  "str_py cpython userexit_classes [''prog''] \<lparr>i_cls = UserExit, i_args = []\<rparr> =
     Inr ''prog: Execution ended normally.'' \<and>
   last ''prog: Execution ended normally.'' \<noteq> nl"
  by code_simp

subsection \<open>What rendering reads\<close>




end
